theory Spec2Isabelle
  imports Main
begin

section \<open>Values, thrown errors and broker commands\<close>

text \<open>
  Jobs are JavaScript values. Only the values that \<open>JSON\<close> knows, and \<open>undefined\<close> and
  \<open>NaN\<close>, are modelled; numbers are integers. Functions and objects that refer to
  themselves are left out.
\<close>

datatype jsval =
    JUndefined
  | JNull
  | JBool bool
  | JNum int
  | JNaN
  | JStr string
  | JArr "jsval list"
  | JObj "(string \<times> jsval) list"

text \<open>What \<open>assert(job, ...)\<close> and \<open>if (job)\<close> test: JavaScript's truthiness.\<close>

fun truthy :: "jsval \<Rightarrow> bool" where
  "truthy JUndefined = False"
| "truthy JNull = False"
| "truthy (JBool b) = b"
| "truthy (JNum n) = (n \<noteq> 0)"
| "truthy JNaN = False"
| "truthy (JStr s) = (s \<noteq> [])"
| "truthy (JArr xs) = True"
| "truthy (JObj kvs) = True"

text \<open>
  What can be thrown, or passed as the error of a callback: the wire client reports the
  broker's replies as strings ('TIMED_OUT', 'NOT_FOUND'), everything else is an
  \<open>Error\<close> object with a message; \<open>assert\<close> throws an \<open>AssertionError\<close>.
  A callback without an error is \<open>None\<close> where the model takes an optional error.
\<close>

datatype thrown =
    Str string
  | Error string
  | AssertionError string

text \<open>\<open>error.message\<close>: a string has none.\<close>

fun message :: "thrown \<Rightarrow> string option" where
  "message (Str s) = None"
| "message (Error m) = Some m"
| "message (AssertionError m) = Some m"

text \<open>
  The test of both catch blocks: \<open>error == 'TIMED_OUT' || error.message == 'TIMED_OUT'\<close>.
  An \<open>Error\<close> object is never loosely equal to the string 'TIMED_OUT' (it converts to
  'Error: ...').
\<close>

definition is_TIMED_OUT :: "thrown \<Rightarrow> bool" where
  "is_TIMED_OUT error = (error = Str ''TIMED_OUT'' \<or> message error = Some ''TIMED_OUT'')"

text \<open>The constants of the module, in milliseconds (\<open>ms('30s')\<close> and so on).\<close>

definition RESERVE_TIMEOUT :: nat where
  "RESERVE_TIMEOUT = 30000"

definition RESERVE_BACKOFF :: nat where
  "RESERVE_BACKOFF = 30000"

definition PROCESSING_TIMEOUT :: nat where
  "PROCESSING_TIMEOUT = 600000"

definition RELEASE_DELAY :: nat where
  "RELEASE_DELAY = 60000"

text \<open>
  The broker commands the queue issues through \<open>session.request(command, ...args)\<close>:
  \<open>put(priority, delay, timeToRun, payload)\<close>, \<open>reserve_with_timeout(timeout)\<close>,
  \<open>destroy(jobID)\<close>, \<open>release(jobID, priority, delay)\<close>.
\<close>

datatype command =
    Put nat nat nat string
  | Reserve_with_timeout nat
  | Destroy nat
  | Release nat nat nat

text \<open>The sessions of a queue: \<open>this._put\<close> and \<open>this._reserve(index)\<close>.\<close>

datatype session_id =
    PutSession
  | ReserveSession nat

text \<open>
  What a run leaves behind, in order: the requests made on a session, the calls of
  \<open>runJob(handler, [payload], timeout)\<close> (a handler is named by its position of
  registration), the calls of \<open>notify.debug\<close>, \<open>notify.info\<close> and
  \<open>notify.error\<close>, and the pauses \<open>setTimeout(resume, backoff)\<close>.
\<close>

datatype action =
    Request session_id command
  | RunJob nat jsval nat
  | Notify_debug string
  | Notify_info string
  | Notify_error thrown
  | SetTimeout nat

section \<open>The environment of a queue\<close>

text \<open>
  Everything a generator of the queue waits for is decided outside the module: the
  outcome of a request on a session (the promise of \<open>Session.request\<close> resolves with
  the reply or rejects with a thrown value), and the outcome of \<open>runJob\<close>, which runs a
  handler under the processing deadline and either succeeds or fails with a thrown value
  (a handler that throws, rejects or exceeds the deadline). Each is a function of a world
  \<open>'w\<close> that it may change. Replies are typed as the beanstalkd protocol gives them:
  \<open>reserve_with_timeout\<close> resolves with the pair of a job id and a payload,
  \<open>put\<close> with a job id, \<open>destroy\<close> and \<open>release\<close> with nothing.
  \<open>JSON.stringify\<close> and \<open>JSON.parse\<close> belong to the runtime and are parameters too;
  \<open>json_parse\<close> gives \<open>None\<close> where \<open>JSON.parse\<close> throws. \<open>test_mode\<close> is
  \<open>process.env.NODE_ENV == 'test'\<close>.
\<close>

record 'w env =
  reserve_reply :: "session_id \<Rightarrow> nat \<Rightarrow> 'w \<Rightarrow> (thrown + nat \<times> string) \<times> 'w"
  put_reply :: "session_id \<Rightarrow> nat \<Rightarrow> nat \<Rightarrow> nat \<Rightarrow> string \<Rightarrow> 'w \<Rightarrow> (thrown + nat) \<times> 'w"
  destroy_reply :: "session_id \<Rightarrow> nat \<Rightarrow> 'w \<Rightarrow> (thrown + unit) \<times> 'w"
  release_reply :: "session_id \<Rightarrow> nat \<Rightarrow> nat \<Rightarrow> nat \<Rightarrow> 'w \<Rightarrow> (thrown + unit) \<times> 'w"
  runJob :: "nat \<Rightarrow> jsval \<Rightarrow> nat \<Rightarrow> 'w \<Rightarrow> thrown option \<times> 'w"
  json_stringify :: "jsval \<Rightarrow> string"
  json_parse :: "string \<Rightarrow> jsval option"
  test_mode :: bool

record 'w st =
  world :: 'w
  trace :: "action list"

definition record_action :: "action \<Rightarrow> 'w st \<Rightarrow> 'w st" where
  "record_action a s = s\<lparr>trace := trace s @ [a]\<rparr>"

text \<open>\<open>yield session.request(command, ...args)\<close>, one function for each command.\<close>

definition request_reserve ::
  "'w env \<Rightarrow> session_id \<Rightarrow> nat \<Rightarrow> 'w st \<Rightarrow> (thrown + nat \<times> string) \<times> 'w st" where
  "request_reserve env session timeout s =
     (case reserve_reply env session timeout (world s) of
        (r, w) \<Rightarrow> (r, record_action (Request session (Reserve_with_timeout timeout)) (s\<lparr>world := w\<rparr>)))"

definition request_put ::
  "'w env \<Rightarrow> session_id \<Rightarrow> nat \<Rightarrow> nat \<Rightarrow> nat \<Rightarrow> string \<Rightarrow> 'w st \<Rightarrow> (thrown + nat) \<times> 'w st" where
  "request_put env session priority delay timeToRun payload s =
     (case put_reply env session priority delay timeToRun payload (world s) of
        (r, w) \<Rightarrow>
          (r, record_action (Request session (Put priority delay timeToRun payload)) (s\<lparr>world := w\<rparr>)))"

definition request_destroy ::
  "'w env \<Rightarrow> session_id \<Rightarrow> nat \<Rightarrow> 'w st \<Rightarrow> (thrown + unit) \<times> 'w st" where
  "request_destroy env session jobID s =
     (case destroy_reply env session jobID (world s) of
        (r, w) \<Rightarrow> (r, record_action (Request session (Destroy jobID)) (s\<lparr>world := w\<rparr>)))"

definition request_release ::
  "'w env \<Rightarrow> session_id \<Rightarrow> nat \<Rightarrow> nat \<Rightarrow> nat \<Rightarrow> 'w st \<Rightarrow> (thrown + unit) \<times> 'w st" where
  "request_release env session jobID priority delay s =
     (case release_reply env session jobID priority delay (world s) of
        (r, w) \<Rightarrow>
          (r, record_action (Request session (Release jobID priority delay)) (s\<lparr>world := w\<rparr>)))"

text \<open>\<open>yield runJob(handler, [payload], PROCESSING_TIMEOUT)\<close>.\<close>

definition run_job :: "'w env \<Rightarrow> nat \<Rightarrow> jsval \<Rightarrow> nat \<Rightarrow> 'w st \<Rightarrow> thrown option \<times> 'w st" where
  "run_job env handler payload timeout s =
     (case runJob env handler payload timeout (world s) of
        (r, w) \<Rightarrow> (r, record_action (RunJob handler payload timeout) (s\<lparr>world := w\<rparr>)))"

section \<open>Queue\<close>

text \<open>
  The fields of a \<open>Queue\<close> that its generators read: \<open>this._processing\<close> and
  \<open>this._handlers\<close>.
\<close>

record queue =
  processing :: bool
  handlers :: "nat list"

subsection \<open>push\<close>

text \<open>
  The generator of \<open>push\<close>: one \<open>put\<close> on the publish session; the job id it resolves
  with goes to the debug line only, and the generator returns nothing.
\<close>

definition push_body :: "'w env \<Rightarrow> jsval \<Rightarrow> 'w st \<Rightarrow> (thrown + unit) \<times> 'w st" where
  "push_body env job s =
     (let priority = 0;
          delay = 0;
          timeToRun = PROCESSING_TIMEOUT div 1000 + 1;
          payload = json_stringify env job
      in case request_put env PutSession priority delay timeToRun payload s of
           (Inl error, s1) \<Rightarrow> (Inl error, s1)
         | (Inr jobID, s1) \<Rightarrow> (Inr (), record_action (Notify_debug ''Queued job %s on queue %s'') s1))"

text \<open>
  \<open>push(job)\<close> asserts the job and returns the thunk of the generator; nothing is queued
  until the thunk is called. \<open>push(job, callback)\<close> calls the thunk at once.
\<close>

definition push ::
  "'w env \<Rightarrow> jsval \<Rightarrow> thrown + ('w st \<Rightarrow> (thrown + unit) \<times> 'w st)" where
  "push env job =
     (if truthy job then Inr (push_body env job)
      else Inl (AssertionError ''Missing job to queue''))"

definition push_callback :: "'w env \<Rightarrow> jsval \<Rightarrow> 'w st \<Rightarrow> (thrown + unit) \<times> 'w st" where
  "push_callback env job s =
     (case push env job of
        Inl error \<Rightarrow> (Inl error, s)
      | Inr thunk \<Rightarrow> thunk s)"

subsection \<open>_runAndDestroy\<close>

text \<open>
  The payload as the handlers get it: the text of the buffer, parsed as JSON where that
  succeeds.
\<close>

definition decode :: "'w env \<Rightarrow> string \<Rightarrow> jsval" where
  "decode env payload =
     (case json_parse env payload of
        Some v \<Rightarrow> v
      | None \<Rightarrow> JStr payload)"

text \<open>
  \<open>for (var handler of this._handlers) yield runJob(handler, [payload], PROCESSING_TIMEOUT)\<close>:
  the first failure leaves the loop.
\<close>

fun run_handlers :: "'w env \<Rightarrow> nat list \<Rightarrow> jsval \<Rightarrow> 'w st \<Rightarrow> thrown option \<times> 'w st" where
  "run_handlers env [] payload s = (None, s)"
| "run_handlers env (handler # hs) payload s =
     (case run_job env handler payload PROCESSING_TIMEOUT s of
        (Some error, s1) \<Rightarrow> (Some error, s1)
      | (None, s1) \<Rightarrow> run_handlers env hs payload s1)"

text \<open>
  The catch block of \<open>_runAndDestroy\<close>: the job is released, then the error is thrown
  again. A release that is rejected throws from inside the catch block, before
  \<open>throw error\<close>.
\<close>

definition release_and_throw ::
  "'w env \<Rightarrow> session_id \<Rightarrow> nat \<Rightarrow> thrown \<Rightarrow> 'w st \<Rightarrow> thrown option \<times> 'w st" where
  "release_and_throw env session jobID error s =
     (let s1 = record_action (Notify_info ''Error processing queued job %s:%ss'') s;
          priority = 0;
          delay = (if test_mode env then 0 else RELEASE_DELAY div 1000)
      in case request_release env session jobID priority delay s1 of
           (Inl release_error, s2) \<Rightarrow> (Some release_error, s2)
         | (Inr u, s2) \<Rightarrow> (Some error, s2))"

text \<open>\<open>_runAndDestroy(session, jobID, payload)\<close>: \<open>None\<close> when it returns, the thrown value otherwise.\<close>

definition runAndDestroy ::
  "'w env \<Rightarrow> queue \<Rightarrow> session_id \<Rightarrow> nat \<Rightarrow> string \<Rightarrow> 'w st \<Rightarrow> thrown option \<times> 'w st" where
  "runAndDestroy env q session jobID payload s =
     (let payload' = decode env payload;
          s1 = record_action (Notify_info ''Processing queued job %s:%s'') s;
          s2 = record_action (Notify_debug ''Payload for job %s:%s:'') s1
      in case run_handlers env (handlers q) payload' s2 of
           (Some error, s3) \<Rightarrow> release_and_throw env session jobID error s3
         | (None, s3) \<Rightarrow>
             (let s4 = record_action (Notify_info ''Completed queued job %s:%s'') s3
              in case request_destroy env session jobID s4 of
                   (Inl error, s5) \<Rightarrow>
                     (None, record_action (Notify_info ''Could not delete job %s:%s'') s5)
                 | (Inr u, s5) \<Rightarrow> (None, s5)))"

subsection \<open>once\<close>

text \<open>The catch block of \<open>once\<close>.\<close>

definition once_catch :: "bool \<Rightarrow> thrown \<Rightarrow> thrown + bool" where
  "once_catch anyProcessed error =
     (if is_TIMED_OUT error then Inr anyProcessed else Inl error)"

text \<open>
  The \<open>while (true)\<close> of \<open>once\<close>. It ends only by a thrown value, so the model takes
  fuel: one unit for each turn of the loop, \<open>None\<close> when the fuel runs out.
\<close>

fun once_loop ::
  "nat \<Rightarrow> 'w env \<Rightarrow> queue \<Rightarrow> bool \<Rightarrow> 'w st \<Rightarrow> ((thrown + bool) \<times> 'w st) option" where
  "once_loop 0 env q anyProcessed s = None"
| "once_loop (Suc n) env q anyProcessed s =
     (case request_reserve env (ReserveSession 0) 0 s of
        (Inl error, s1) \<Rightarrow> Some (once_catch anyProcessed error, s1)
      | (Inr (jobID, payload), s1) \<Rightarrow>
          (case runAndDestroy env q (ReserveSession 0) jobID payload s1 of
             (Some error, s2) \<Rightarrow> Some (once_catch anyProcessed error, s2)
           | (None, s2) \<Rightarrow> once_loop n env q True s2))"

definition once ::
  "nat \<Rightarrow> 'w env \<Rightarrow> queue \<Rightarrow> 'w st \<Rightarrow> ((thrown + bool) \<times> 'w st) option" where
  "once n env q s =
     (if processing q
      then Some (Inl (AssertionError ''Cannot call once while continuously processing jobs''), s)
      else if handlers q = [] then Some (Inr False, s)
      else once_loop n env q False
             (record_action (Notify_debug ''Waiting for jobs on queue %s'') s))"

subsection \<open>_processContinously\<close>

text \<open>The try block of one turn of the loop: the thrown value, if any.\<close>

definition iteration_try ::
  "'w env \<Rightarrow> queue \<Rightarrow> session_id \<Rightarrow> 'w st \<Rightarrow> thrown option \<times> 'w st" where
  "iteration_try env q session s =
     (let timeout = RESERVE_TIMEOUT div 1000
      in case request_reserve env session timeout s of
           (Inl error, s1) \<Rightarrow> (Some error, s1)
         | (Inr (jobID, payload), s1) \<Rightarrow> runAndDestroy env q session jobID payload s1)"

text \<open>The catch block of one turn of the loop.\<close>

definition iteration_catch :: "'w env \<Rightarrow> thrown \<Rightarrow> 'w st \<Rightarrow> 'w st" where
  "iteration_catch env error s =
     (if is_TIMED_OUT error then s
      else (let s1 = record_action (Notify_error error) s;
                backoff = (if test_mode env then 0 else RESERVE_BACKOFF)
            in record_action (SetTimeout backoff) s1))"

definition iteration :: "'w env \<Rightarrow> queue \<Rightarrow> session_id \<Rightarrow> 'w st \<Rightarrow> 'w st" where
  "iteration env q session s =
     (case iteration_try env q session s of
        (None, s1) \<Rightarrow> s1
      | (Some error, s1) \<Rightarrow> iteration_catch env error s1)"

text \<open>
  \<open>while (this._processing && this._handlers.length)\<close>, with fuel: the loop has no
  other way out.
\<close>

fun processContinously_loop ::
  "nat \<Rightarrow> 'w env \<Rightarrow> queue \<Rightarrow> session_id \<Rightarrow> 'w st \<Rightarrow> 'w st option" where
  "processContinously_loop 0 env q session s =
     (if processing q \<and> handlers q \<noteq> [] then None else Some s)"
| "processContinously_loop (Suc n) env q session s =
     (if processing q \<and> handlers q \<noteq> []
      then processContinously_loop n env q session (iteration env q session s)
      else Some s)"

definition processContinously ::
  "nat \<Rightarrow> 'w env \<Rightarrow> queue \<Rightarrow> session_id \<Rightarrow> 'w st \<Rightarrow> 'w st option" where
  "processContinously n env q session s =
     processContinously_loop n env q session
       (if processing q \<and> handlers q \<noteq> []
        then record_action (Notify_debug ''Waiting for jobs on queue %s'') s
        else s)"

section \<open>Session\<close>

text \<open>
  A session is driven by what happens around it: calls of \<open>request\<close> and \<open>end\<close>,
  and the events and callbacks of the wire clients it has opened. Every listener runs to
  its end before the next event is delivered (\<open>client.end()\<close> closes the stream
  later, it emits nothing while a listener runs), so the session is a machine that takes
  one event at a time. Which events come, and in which order, is left open.

  A client is the object \<open>new fivebeans.client(hostname, port)\<close> gives; the session
  names it by the order of its creation. Each client is created by one call of
  \<open>connect\<close>, and \<open>phase\<close> is where that generator stands: waiting for the
  'connect' event, for the callback of the authentication \<open>put\<close>, for the callback of
  a command of the setup routine, or finished (it returned the client, or threw).
  \<open>connected\<close>, \<open>authenticated\<close> and \<open>setups\<close> record what the client has
  acknowledged, \<open>ended\<close> that \<open>client.end()\<close> was called.
\<close>

datatype phase =
    Await_connect
  | Await_authenticate
  | Await_setup nat
  | Returned
  | Threw thrown

record client =
  phase :: phase
  connected :: bool
  authenticated :: bool
  setups :: nat
  ended :: bool

text \<open>
  What a request resolves with: \<open>results\<close> when the callback got more than one
  result, \<open>results[0]\<close> otherwise.
\<close>

datatype resolution =
    Many "string list"
  | One "string option"

definition resolve_with :: "string list \<Rightarrow> resolution" where
  "resolve_with results =
     (if length results > 1 then Many results
      else One (case results of [] \<Rightarrow> None | r # rs \<Rightarrow> Some r))"

text \<open>
  The promise of a request: waiting for the call of \<open>connect\<close> that opened a client,
  sent on a client with its \<open>close\<close> and \<open>error\<close> listeners attached, or settled.
  A settled promise ignores every later \<open>resolve\<close> and \<open>reject\<close>.
\<close>

datatype promise =
    Connecting nat
  | In_flight nat
  | Resolved resolution
  | Rejected thrown

text \<open>
  \<open>authenticate\<close> is \<open>config.authenticate\<close>; \<open>setup_steps\<close> is the number of
  commands the setup routine issues, one after the other (\<open>use\<close> for the publish
  session; \<open>watch\<close>, then \<open>ignore\<close> for a reservation session); \<open>s_client\<close> is
  \<open>this._client\<close>.
\<close>

record session =
  authenticate :: "string option"
  setup_steps :: nat
  s_client :: "nat option"
  clients :: "client list"
  requests :: "promise list"

definition new_session :: "string option \<Rightarrow> nat \<Rightarrow> session" where
  "new_session auth steps =
     \<lparr>authenticate = auth, setup_steps = steps, s_client = None, clients = [], requests = []\<rparr>"

definition new_client :: client where
  "new_client =
     \<lparr>phase = Await_connect, connected = False, authenticated = False, setups = 0, ended = False\<rparr>"

definition update_client :: "nat \<Rightarrow> (client \<Rightarrow> client) \<Rightarrow> session \<Rightarrow> session" where
  "update_client c f s =
     (if c < length (clients s) then s\<lparr>clients := (clients s)[c := f (clients s ! c)]\<rparr> else s)"

text \<open>
  \<open>connect()\<close> up to its first \<open>yield\<close>: the stored client, or a new client with the
  two listeners, connecting.
\<close>

datatype connect_result =
    Handle nat
  | Attempt nat

definition connect :: "session \<Rightarrow> connect_result \<times> session" where
  "connect s =
     (case s_client s of
        Some c \<Rightarrow> (Handle c, s)
      | None \<Rightarrow> (Attempt (length (clients s)), s\<lparr>clients := clients s @ [new_client]\<rparr>))"

text \<open>
  \<open>request(command, ...args)\<close>: with the stored client the command is sent at once;
  otherwise the promise waits for the new call of \<open>connect\<close>.
\<close>

definition request :: "session \<Rightarrow> session" where
  "request s =
     (case connect s of
        (Handle c, s1) \<Rightarrow> s1\<lparr>requests := requests s1 @ [In_flight c]\<rparr>
      | (Attempt c, s1) \<Rightarrow> s1\<lparr>requests := requests s1 @ [Connecting c]\<rparr>)"

text \<open>
  The end of \<open>connect()\<close>: \<open>this._client = client; return client\<close>, and the requests
  that waited for it send their commands.
\<close>

definition connect_return :: "nat \<Rightarrow> session \<Rightarrow> session" where
  "connect_return c s =
     (update_client c (\<lambda>cl. cl\<lparr>phase := Returned\<rparr>) s)
       \<lparr>s_client := Some c,
        requests := map (\<lambda>p. if p = Connecting c then In_flight c else p) (requests s)\<rparr>"

text \<open>The catch block of \<open>connect()\<close>: \<open>client.end(); throw error\<close>.\<close>

definition connect_throw :: "nat \<Rightarrow> thrown \<Rightarrow> session \<Rightarrow> session" where
  "connect_throw c error s =
     (update_client c (\<lambda>cl. cl\<lparr>phase := Threw error, ended := True\<rparr>) s)
       \<lparr>requests := map (\<lambda>p. if p = Connecting c then Rejected error else p) (requests s)\<rparr>"

text \<open>\<open>yield this.setup(client)\<close>: the first command of the setup routine, if it has one.\<close>

definition start_setup :: "nat \<Rightarrow> session \<Rightarrow> session" where
  "start_setup c s =
     (if setup_steps s = 0 then connect_return c s
      else update_client c (\<lambda>cl. cl\<lparr>phase := Await_setup 0\<rparr>) s)"

definition needs_authentication :: "session \<Rightarrow> bool" where
  "needs_authentication s = (case authenticate s of None \<Rightarrow> False | Some a \<Rightarrow> a \<noteq> [])"

text \<open>Client \<open>c\<close> emits 'connect': the generator that waits for it goes on.\<close>

definition on_connect :: "nat \<Rightarrow> session \<Rightarrow> session" where
  "on_connect c s =
     (if c < length (clients s) then
        (let s1 = update_client c (\<lambda>cl. cl\<lparr>connected := True\<rparr>) s
         in if phase (clients s ! c) = Await_connect then
              (if needs_authentication s1
               then update_client c (\<lambda>cl. cl\<lparr>phase := Await_authenticate\<rparr>) s1
               else start_setup c s1)
            else s1)
      else s)"

text \<open>
  The callback of the command that \<open>connect()\<close> waits for on client \<open>c\<close>, with its
  error if any.
\<close>

definition on_reply :: "nat \<Rightarrow> thrown option \<Rightarrow> session \<Rightarrow> session" where
  "on_reply c err s =
     (if c < length (clients s) then
        (case phase (clients s ! c) of
           Await_authenticate \<Rightarrow>
             (case err of
                Some error \<Rightarrow> connect_throw c error s
              | None \<Rightarrow> start_setup c (update_client c (\<lambda>cl. cl\<lparr>authenticated := True\<rparr>) s))
         | Await_setup i \<Rightarrow>
             (case err of
                Some error \<Rightarrow> connect_throw c error s
              | None \<Rightarrow>
                  (let s1 = update_client c (\<lambda>cl. cl\<lparr>setups := Suc i\<rparr>) s
                   in if Suc i < setup_steps s
                      then update_client c (\<lambda>cl. cl\<lparr>phase := Await_setup (Suc i)\<rparr>) s1
                      else connect_return c s1))
         | Await_connect \<Rightarrow> s
         | Returned \<Rightarrow> s
         | Threw e \<Rightarrow> s)
      else s)"

text \<open>
  Client \<open>c\<close> emits 'error': the listener of \<open>connect()\<close> discards the client if it is
  the stored one and ends it; \<open>onError\<close> of every request in flight on it rejects with
  the error.
\<close>

definition on_error :: "nat \<Rightarrow> thrown \<Rightarrow> session \<Rightarrow> session" where
  "on_error c error s =
     (if c < length (clients s) then
        (update_client c (\<lambda>cl. cl\<lparr>ended := True\<rparr>) s)
          \<lparr>s_client := (if s_client s = Some c then None else s_client s),
           requests := map (\<lambda>p. if p = In_flight c then Rejected error else p) (requests s)\<rparr>
      else s)"

text \<open>
  Client \<open>c\<close> emits 'close': the listener of \<open>connect()\<close> discards the client if it is
  the stored one; \<open>onClose\<close> of every request in flight on it rejects with
  \<open>new Error('TIMED_OUT')\<close>.
\<close>

definition on_close :: "nat \<Rightarrow> session \<Rightarrow> session" where
  "on_close c s =
     (if c < length (clients s) then
        s\<lparr>s_client := (if s_client s = Some c then None else s_client s),
          requests :=
            map (\<lambda>p. if p = In_flight c then Rejected (Error ''TIMED_OUT'') else p) (requests s)\<rparr>
      else s)"

text \<open>
  The callback of the command of request \<open>r\<close>, \<open>function(error, ...results)\<close>: the
  listeners are removed and the promise settles.
\<close>

definition on_completion :: "nat \<Rightarrow> thrown option \<Rightarrow> string list \<Rightarrow> session \<Rightarrow> session" where
  "on_completion r err results s =
     (if r < length (requests s) then
        (case requests s ! r of
           In_flight c \<Rightarrow>
             s\<lparr>requests := (requests s)
                 [r := (case err of
                          Some error \<Rightarrow> Rejected error
                        | None \<Rightarrow> Resolved (resolve_with results))]\<rparr>
         | Connecting c \<Rightarrow> s
         | Resolved v \<Rightarrow> s
         | Rejected e \<Rightarrow> s)
      else s)"

text \<open>\<open>end()\<close>.\<close>

definition session_end :: "session \<Rightarrow> session" where
  "session_end s =
     (case s_client s of
        Some c \<Rightarrow> (update_client c (\<lambda>cl. cl\<lparr>ended := True\<rparr>) s)\<lparr>s_client := None\<rparr>
      | None \<Rightarrow> s\<lparr>s_client := None\<rparr>)"

datatype event =
    Call_request
  | Call_end
  | On_connect nat
  | On_reply nat "thrown option"
  | On_completion nat "thrown option" "string list"
  | On_error nat thrown
  | On_close nat

fun step :: "session \<Rightarrow> event \<Rightarrow> session" where
  "step s Call_request = request s"
| "step s Call_end = session_end s"
| "step s (On_connect c) = on_connect c s"
| "step s (On_reply c err) = on_reply c err s"
| "step s (On_completion r err results) = on_completion r err results s"
| "step s (On_error c error) = on_error c error s"
| "step s (On_close c) = on_close c s"

definition run :: "session \<Rightarrow> event list \<Rightarrow> session" where
  "run s evs = foldl step s evs"

subsection \<open>What holds of every session\<close>

text \<open>
  A client is initialised when it has connected, has authenticated if the configuration
  asks for it, and has acknowledged every command of the setup routine. \<open>client_ok\<close>
  says what a client has acknowledged at each point of its \<open>connect()\<close>;
  \<open>promise_ok\<close> that a promise names a client that exists; \<open>stored_ok\<close> that the
  stored client is one whose \<open>connect()\<close> has returned.
\<close>

definition initialised :: "bool \<Rightarrow> nat \<Rightarrow> client \<Rightarrow> bool" where
  "initialised auth steps cl =
     (connected cl \<and> (if auth then authenticated cl else True) \<and> setups cl = steps)"

definition client_ok :: "bool \<Rightarrow> nat \<Rightarrow> client \<Rightarrow> bool" where
  "client_ok auth steps cl =
     (case phase cl of
        Await_connect \<Rightarrow> setups cl = 0
      | Await_authenticate \<Rightarrow> connected cl \<and> auth \<and> setups cl = 0
      | Await_setup i \<Rightarrow>
          connected cl \<and> (if auth then authenticated cl else True) \<and>
          setups cl = i \<and> i < steps
      | Returned \<Rightarrow> initialised auth steps cl
      | Threw e \<Rightarrow> ended cl)"

definition promise_ok :: "nat \<Rightarrow> promise \<Rightarrow> bool" where
  "promise_ok n p =
     (case p of
        Connecting c \<Rightarrow> c < n
      | In_flight c \<Rightarrow> c < n
      | Resolved v \<Rightarrow> True
      | Rejected e \<Rightarrow> True)"

definition stored_ok :: "session \<Rightarrow> bool" where
  "stored_ok s =
     (case s_client s of
        None \<Rightarrow> True
      | Some c \<Rightarrow>
          c < length (clients s) \<and> phase (clients s ! c) = Returned)"

definition wf :: "session \<Rightarrow> bool" where
  "wf s =
     (list_all (promise_ok (length (clients s))) (requests s) \<and>
      list_all (client_ok (needs_authentication s) (setup_steps s)) (clients s) \<and>
      stored_ok s)"

section \<open>Reading the outcome of the handlers off the world\<close>

text \<open>
  What running the handlers of a list on a payload comes to, one after the other from a
  world and up to the first that fails: the failure if any, the number of handlers that
  were run, and the world they leave. All three follow \<open>runJob\<close> alone.
\<close>

fun handlers_result :: "'w env \<Rightarrow> nat list \<Rightarrow> jsval \<Rightarrow> 'w \<Rightarrow> thrown option" where
  "handlers_result env [] payload w = None"
| "handlers_result env (handler # hs) payload w =
     (case runJob env handler payload PROCESSING_TIMEOUT w of
        (Some error, w1) \<Rightarrow> Some error
      | (None, w1) \<Rightarrow> handlers_result env hs payload w1)"

fun handlers_run :: "'w env \<Rightarrow> nat list \<Rightarrow> jsval \<Rightarrow> 'w \<Rightarrow> nat" where
  "handlers_run env [] payload w = 0"
| "handlers_run env (handler # hs) payload w =
     (case runJob env handler payload PROCESSING_TIMEOUT w of
        (Some error, w1) \<Rightarrow> 1
      | (None, w1) \<Rightarrow> Suc (handlers_run env hs payload w1))"

fun world_after :: "'w env \<Rightarrow> nat list \<Rightarrow> jsval \<Rightarrow> 'w \<Rightarrow> 'w" where
  "world_after env [] payload w = w"
| "world_after env (handler # hs) payload w =
     (case runJob env handler payload PROCESSING_TIMEOUT w of
        (Some error, w1) \<Rightarrow> w1
      | (None, w1) \<Rightarrow> world_after env hs payload w1)"

text \<open>The requests among the actions of a trace.\<close>

fun is_request :: "action \<Rightarrow> bool" where
  "is_request (Request session cmd) = True"
| "is_request (RunJob handler payload timeout) = False"
| "is_request (Notify_debug m) = False"
| "is_request (Notify_info m) = False"
| "is_request (Notify_error e) = False"
| "is_request (SetTimeout t) = False"

definition requests_of :: "action list \<Rightarrow> action list" where
  "requests_of as = filter is_request as"

text \<open>The handler runs among the actions of a trace.\<close>

fun is_run :: "action \<Rightarrow> bool" where
  "is_run (Request session cmd) = False"
| "is_run (RunJob handler payload timeout) = True"
| "is_run (Notify_debug m) = False"
| "is_run (Notify_info m) = False"
| "is_run (Notify_error e) = False"
| "is_run (SetTimeout t) = False"

definition runs_of :: "action list \<Rightarrow> action list" where
  "runs_of as = filter is_run as"

text \<open>The error reports and the pauses among the actions of a trace.\<close>

fun is_alarm :: "action \<Rightarrow> bool" where
  "is_alarm (Request session cmd) = False"
| "is_alarm (RunJob handler payload timeout) = False"
| "is_alarm (Notify_debug m) = False"
| "is_alarm (Notify_info m) = False"
| "is_alarm (Notify_error e) = True"
| "is_alarm (SetTimeout t) = True"

definition alarms_of :: "action list \<Rightarrow> action list" where
  "alarms_of as = filter is_alarm as"

text \<open>The reservations among the actions of a trace.\<close>

fun is_reserve :: "action \<Rightarrow> bool" where
  "is_reserve (Request session (Reserve_with_timeout timeout)) = True"
| "is_reserve (Request session (Put priority delay timeToRun payload)) = False"
| "is_reserve (Request session (Destroy jobID)) = False"
| "is_reserve (Request session (Release jobID priority delay)) = False"
| "is_reserve (RunJob handler payload timeout) = False"
| "is_reserve (Notify_debug m) = False"
| "is_reserve (Notify_info m) = False"
| "is_reserve (Notify_error e) = False"
| "is_reserve (SetTimeout t) = False"

definition reserves_of :: "action list \<Rightarrow> action list" where
  "reserves_of as = filter is_reserve as"

section \<open>Reading the turns of a drain off the world\<close>

text \<open>
  One turn of the loop of \<open>once\<close> reserves with timeout 0 on the first reservation
  session and runs and destroys the job. \<open>turn_failure\<close> is the value the turn throws,
  from the reservation or from \<open>_runAndDestroy\<close>, with the state it leaves, if the turn
  fails; \<open>drained k\<close> is the state after \<open>k\<close> turns that did not fail, if the first
  \<open>k\<close> turns do not fail.
\<close>

definition turn_failure :: "'w env \<Rightarrow> queue \<Rightarrow> 'w st \<Rightarrow> (thrown \<times> 'w st) option" where
  "turn_failure env q s =
     (case request_reserve env (ReserveSession 0) 0 s of
        (Inl error, s1) \<Rightarrow> Some (error, s1)
      | (Inr (jobID, payload), s1) \<Rightarrow>
          (case runAndDestroy env q (ReserveSession 0) jobID payload s1 of
             (Some error, s2) \<Rightarrow> Some (error, s2)
           | (None, s2) \<Rightarrow> None))"

fun drained :: "nat \<Rightarrow> 'w env \<Rightarrow> queue \<Rightarrow> 'w st \<Rightarrow> 'w st option" where
  "drained 0 env q s = Some s"
| "drained (Suc k) env q s =
     (case request_reserve env (ReserveSession 0) 0 s of
        (Inl error, s1) \<Rightarrow> None
      | (Inr (jobID, payload), s1) \<Rightarrow>
          (case runAndDestroy env q (ReserveSession 0) jobID payload s1 of
             (Some error, s2) \<Rightarrow> None
           | (None, s2) \<Rightarrow> drained k env q s2))"

section \<open>A scripted broker and a JSON reader and writer, to run the model\<close>

text \<open>
  A world that plays a script: the replies to the reservations, the outcomes of the other
  requests (\<open>put\<close>, \<open>destroy\<close>, \<open>release\<close>) and the outcomes of the handler runs,
  each taken in order. When a list is used up, a reservation finds no job ('TIMED_OUT'),
  and requests and handlers succeed.
\<close>

record script =
  reserves :: "(thrown + nat \<times> string) list"
  acks :: "thrown option list"
  outcomes :: "thrown option list"

definition next_ack :: "script \<Rightarrow> thrown option \<times> script" where
  "next_ack w = (case acks w of [] \<Rightarrow> (None, w) | a # as \<Rightarrow> (a, w\<lparr>acks := as\<rparr>))"

text \<open>
  Text of a JSON value, and back: integers, strings (with the quote and the backslash
  escaped), arrays and objects, without white space.
\<close>

fun show_nat :: "nat \<Rightarrow> nat \<Rightarrow> string" where
  "show_nat 0 n = []"
| "show_nat (Suc fuel) n =
     (if n < 10 then [char_of (48 + n)]
      else show_nat fuel (n div 10) @ [char_of (48 + n mod 10)])"

definition show_int :: "int \<Rightarrow> string" where
  "show_int i =
     (if i < 0 then CHR ''-'' # show_nat (Suc (nat (- i))) (nat (- i))
      else show_nat (Suc (nat i)) (nat i))"

fun join :: "string \<Rightarrow> string list \<Rightarrow> string" where
  "join sep [] = []"
| "join sep [x] = x"
| "join sep (x # y # ys) = x @ sep @ join sep (y # ys)"

definition quote :: "string \<Rightarrow> string" where
  "quote s =
     CHR 0x22 #
     concat (map (\<lambda>c. if c = CHR 0x22 \<or> c = CHR 0x5C then [CHR 0x5C, c] else [c]) s) @
     [CHR 0x22]"

fun json_write :: "jsval \<Rightarrow> string" where
  "json_write JUndefined = ''undefined''"
| "json_write JNull = ''null''"
| "json_write (JBool b) = (if b then ''true'' else ''false'')"
| "json_write (JNum n) = show_int n"
| "json_write JNaN = ''null''"
| "json_write (JStr s) = quote s"
| "json_write (JArr xs) = ''['' @ join '','' (map json_write xs) @ '']''"
| "json_write (JObj kvs) =
     ''{'' @ join '','' (map (\<lambda>(k, v). quote k @ '':'' @ json_write v) kvs) @ ''}''"

fun read_chars :: "string \<Rightarrow> string \<Rightarrow> (string \<times> string) option" where
  "read_chars acc [] = None"
| "read_chars acc (c # cs) =
     (if c = CHR 0x22 then Some (rev acc, cs)
      else if c = CHR 0x5C then
        (case cs of
           [] \<Rightarrow> None
         | d # ds \<Rightarrow>
             if d = CHR 0x22 \<or> d = CHR 0x5C then read_chars (d # acc) ds else None)
      else read_chars (c # acc) cs)"

definition is_digit :: "char \<Rightarrow> bool" where
  "is_digit c = ((48::nat) \<le> of_char c \<and> (of_char c :: nat) \<le> 57)"

definition read_nat :: "string \<Rightarrow> nat" where
  "read_nat ds = foldl (\<lambda>n c. 10 * n + (of_char c - 48)) 0 ds"

fun read_value :: "nat \<Rightarrow> string \<Rightarrow> (jsval \<times> string) option"
  and read_elements :: "nat \<Rightarrow> jsval list \<Rightarrow> string \<Rightarrow> (jsval list \<times> string) option"
  and read_members ::
    "nat \<Rightarrow> (string \<times> jsval) list \<Rightarrow> string \<Rightarrow> ((string \<times> jsval) list \<times> string) option"
  where
  "read_value 0 cs = None"
| "read_value (Suc n) [] = None"
| "read_value (Suc n) (c # cs) =
     (if c = CHR 0x22 then
        (case read_chars [] cs of
           None \<Rightarrow> None
         | Some (s, rest) \<Rightarrow> Some (JStr s, rest))
      else if c = CHR ''['' then
        (case cs of
           [] \<Rightarrow> None
         | d # ds \<Rightarrow>
             if d = CHR '']'' then Some (JArr [], ds)
             else (case read_elements n [] cs of
                     None \<Rightarrow> None
                   | Some (xs, rest) \<Rightarrow> Some (JArr xs, rest)))
      else if c = CHR ''{'' then
        (case cs of
           [] \<Rightarrow> None
         | d # ds \<Rightarrow>
             if d = CHR ''}'' then Some (JObj [], ds)
             else (case read_members n [] cs of
                     None \<Rightarrow> None
                   | Some (kvs, rest) \<Rightarrow> Some (JObj kvs, rest)))
      else if c = CHR ''-'' then
        (let ds = takeWhile is_digit cs
         in if ds = [] then None
            else Some (JNum (- int (read_nat ds)), dropWhile is_digit cs))
      else if is_digit c then
        Some (JNum (int (read_nat (takeWhile is_digit (c # cs)))), dropWhile is_digit cs)
      else if take 4 (c # cs) = ''null'' then Some (JNull, drop 3 cs)
      else if take 4 (c # cs) = ''true'' then Some (JBool True, drop 3 cs)
      else if take 5 (c # cs) = ''false'' then Some (JBool False, drop 4 cs)
      else None)"
| "read_elements 0 acc cs = None"
| "read_elements (Suc n) acc cs =
     (case read_value n cs of
        None \<Rightarrow> None
      | Some (v, rest) \<Rightarrow>
          (case rest of
             [] \<Rightarrow> None
           | d # ds \<Rightarrow>
               if d = CHR '']'' then Some (acc @ [v], ds)
               else if d = CHR '','' then read_elements n (acc @ [v]) ds
               else None))"
| "read_members 0 acc cs = None"
| "read_members (Suc n) acc cs =
     (case cs of
        [] \<Rightarrow> None
      | q # cs1 \<Rightarrow>
          if q \<noteq> CHR 0x22 then None
          else (case read_chars [] cs1 of
                  None \<Rightarrow> None
                | Some (k, rest) \<Rightarrow>
                    (case rest of
                       [] \<Rightarrow> None
                     | colon # rest1 \<Rightarrow>
                         if colon \<noteq> CHR '':'' then None
                         else (case read_value n rest1 of
                                 None \<Rightarrow> None
                               | Some (v, rest2) \<Rightarrow>
                                   (case rest2 of
                                      [] \<Rightarrow> None
                                    | d # ds \<Rightarrow>
                                        if d = CHR ''}'' then Some (acc @ [(k, v)], ds)
                                        else if d = CHR '','' then
                                          read_members n (acc @ [(k, v)]) ds
                                        else None)))))"

definition json_read :: "string \<Rightarrow> jsval option" where
  "json_read cs =
     (case read_value (Suc (length cs)) cs of
        None \<Rightarrow> None
      | Some (v, rest) \<Rightarrow> if rest = [] then Some v else None)"

definition scripted :: "bool \<Rightarrow> script env" where
  "scripted test =
     \<lparr>reserve_reply =
        (\<lambda>session timeout w.
           case reserves w of
             [] \<Rightarrow> (Inl (Str ''TIMED_OUT''), w)
           | r # rs \<Rightarrow> (r, w\<lparr>reserves := rs\<rparr>)),
      put_reply =
        (\<lambda>session priority delay timeToRun payload w.
           case next_ack w of
             (None, w1) \<Rightarrow> (Inr 1, w1)
           | (Some e, w1) \<Rightarrow> (Inl e, w1)),
      destroy_reply =
        (\<lambda>session jobID w.
           case next_ack w of
             (None, w1) \<Rightarrow> (Inr (), w1)
           | (Some e, w1) \<Rightarrow> (Inl e, w1)),
      release_reply =
        (\<lambda>session jobID priority delay w.
           case next_ack w of
             (None, w1) \<Rightarrow> (Inr (), w1)
           | (Some e, w1) \<Rightarrow> (Inl e, w1)),
      runJob =
        (\<lambda>handler payload timeout w.
           case outcomes w of
             [] \<Rightarrow> (None, w)
           | r # rs \<Rightarrow> (r, w\<lparr>outcomes := rs\<rparr>)),
      json_stringify = json_write,
      json_parse = json_read,
      test_mode = test\<rparr>"

definition start :: "(thrown + nat \<times> string) list \<Rightarrow> thrown option list \<Rightarrow> thrown option list \<Rightarrow> script st" where
  "start rs as os = \<lparr>world = \<lparr>reserves = rs, acks = as, outcomes = os\<rparr>, trace = []\<rparr>"

section \<open>Lemmas on traces and on the handlers\<close>

lemma requests_of_append [simp]: "requests_of (xs @ ys) = requests_of xs @ requests_of ys"
  by (simp add: requests_of_def)

lemma requests_of_runs [simp]: "requests_of (map (\<lambda>h. RunJob h p t) hs) = []"
  by (induction hs) (simp_all add: requests_of_def)

lemma requests_of_simps [simp]:
  "requests_of [] = []"
  "requests_of (Request session cmd # as) = Request session cmd # requests_of as"
  "requests_of (RunJob h p t # as) = requests_of as"
  "requests_of (Notify_debug m # as) = requests_of as"
  "requests_of (Notify_info m # as) = requests_of as"
  "requests_of (Notify_error e # as) = requests_of as"
  "requests_of (SetTimeout d # as) = requests_of as"
  by (simp_all add: requests_of_def)

lemma runs_of_append [simp]: "runs_of (xs @ ys) = runs_of xs @ runs_of ys"
  by (simp add: runs_of_def)

lemma runs_of_runs [simp]:
  "runs_of (map (\<lambda>h. RunJob h p t) hs) = map (\<lambda>h. RunJob h p t) hs"
  by (induction hs) (simp_all add: runs_of_def)

lemma runs_of_simps [simp]:
  "runs_of [] = []"
  "runs_of (Request session cmd # as) = runs_of as"
  "runs_of (RunJob h p t # as) = RunJob h p t # runs_of as"
  "runs_of (Notify_debug m # as) = runs_of as"
  "runs_of (Notify_info m # as) = runs_of as"
  "runs_of (Notify_error e # as) = runs_of as"
  "runs_of (SetTimeout d # as) = runs_of as"
  by (simp_all add: runs_of_def)

text \<open>
  The loop over the handlers does what \<open>handlers_result\<close>, \<open>handlers_run\<close> and
  \<open>world_after\<close> say, and calls \<open>runJob\<close> for the handlers up to the first failure,
  in their order, and for no other.
\<close>

lemma run_handlers_eq:
  "run_handlers env hs p s =
     (handlers_result env hs p (world s),
      s\<lparr>world := world_after env hs p (world s),
        trace := trace s @
          map (\<lambda>h. RunJob h p PROCESSING_TIMEOUT) (take (handlers_run env hs p (world s)) hs)\<rparr>)"
proof (induction hs arbitrary: s)
  case Nil
  show ?case by simp
next
  case (Cons h hs)
  show ?case
    by (cases "runJob env h p PROCESSING_TIMEOUT (world s)")
       (auto simp: run_job_def record_action_def Cons.IH split: option.splits)
qed

lemma handlers_run_all:
  "handlers_result env hs p w = None \<Longrightarrow> handlers_run env hs p w = length hs"
  by (induction hs arbitrary: w) (auto split: prod.splits option.splits)

text \<open>\<open>_runAndDestroy\<close> when a handler fails: what it throws and what it leaves.\<close>

lemma runAndDestroy_failure:
  assumes "handlers_result env (handlers q) (decode env payload) (world s) = Some error"
  shows "runAndDestroy env q session jobID payload s =
     (Some (case fst (release_reply env session jobID 0 (if test_mode env then 0 else 60)
                        (world_after env (handlers q) (decode env payload) (world s))) of
              Inl release_error \<Rightarrow> release_error
            | Inr u \<Rightarrow> error),
      \<lparr>world = snd (release_reply env session jobID 0 (if test_mode env then 0 else 60)
                        (world_after env (handlers q) (decode env payload) (world s))),
       trace = trace s @
         [Notify_info ''Processing queued job %s:%s'', Notify_debug ''Payload for job %s:%s:''] @
         map (\<lambda>h. RunJob h (decode env payload) PROCESSING_TIMEOUT)
           (take (handlers_run env (handlers q) (decode env payload) (world s)) (handlers q)) @
         [Notify_info ''Error processing queued job %s:%ss'',
          Request session (Release jobID 0 (if test_mode env then 0 else 60))]\<rparr>)"
  using assms
  by (auto simp: runAndDestroy_def run_handlers_eq release_and_throw_def request_release_def
      record_action_def RELEASE_DELAY_def Let_def split: prod.splits sum.splits)

text \<open>\<open>_runAndDestroy\<close> when every handler succeeds.\<close>

lemma runAndDestroy_success:
  assumes "handlers_result env (handlers q) (decode env payload) (world s) = None"
  shows "runAndDestroy env q session jobID payload s =
     (None,
      \<lparr>world = snd (destroy_reply env session jobID
                        (world_after env (handlers q) (decode env payload) (world s))),
       trace = trace s @
         [Notify_info ''Processing queued job %s:%s'', Notify_debug ''Payload for job %s:%s:''] @
         map (\<lambda>h. RunJob h (decode env payload) PROCESSING_TIMEOUT)
           (take (handlers_run env (handlers q) (decode env payload) (world s)) (handlers q)) @
         [Notify_info ''Completed queued job %s:%s'', Request session (Destroy jobID)] @
         (case fst (destroy_reply env session jobID
                        (world_after env (handlers q) (decode env payload) (world s))) of
            Inl e \<Rightarrow> [Notify_info ''Could not delete job %s:%s'']
          | Inr u \<Rightarrow> [])\<rparr>)"
  using assms
  by (auto simp: runAndDestroy_def run_handlers_eq request_destroy_def
      record_action_def Let_def split: prod.splits sum.splits)


lemma handlers_run_least [simp]: "min (Suc 0) (length hs) \<le> handlers_run env hs p w"
  by (cases hs) (simp_all split: prod.splits option.splits)

text \<open>The scripted broker, field by field.\<close>

lemma scripted_fields [simp]:
  "reserve_reply (scripted t) session timeout w =
     (case reserves w of
        [] \<Rightarrow> (Inl (Str ''TIMED_OUT''), w)
      | r # rs \<Rightarrow> (r, w\<lparr>reserves := rs\<rparr>))"
  "put_reply (scripted t) session priority delay timeToRun payload w =
     (case next_ack w of (None, w1) \<Rightarrow> (Inr 1, w1) | (Some e, w1) \<Rightarrow> (Inl e, w1))"
  "destroy_reply (scripted t) session jobID w =
     (case next_ack w of (None, w1) \<Rightarrow> (Inr (), w1) | (Some e, w1) \<Rightarrow> (Inl e, w1))"
  "release_reply (scripted t) session jobID priority delay w =
     (case next_ack w of (None, w1) \<Rightarrow> (Inr (), w1) | (Some e, w1) \<Rightarrow> (Inl e, w1))"
  "runJob (scripted t) handler p timeout w =
     (case outcomes w of [] \<Rightarrow> (None, w) | r # rs \<Rightarrow> (r, w\<lparr>outcomes := rs\<rparr>))"
  "json_stringify (scripted t) = json_write"
  "json_parse (scripted t) = json_read"
  "test_mode (scripted t) = t"
  by (simp_all add: scripted_def)

lemma start_fields [simp]:
  "world (start rs as os) = \<lparr>reserves = rs, acks = as, outcomes = os\<rparr>"
  "trace (start rs as os) = []"
  by (simp_all add: start_def)

lemma json_read_12: "json_read ''[1,2]'' = Some (JArr [JNum 1, JNum 2])"
  by code_simp


lemma decode_12: "decode (scripted t) ''[1,2]'' = JArr [JNum 1, JNum 2]"
  by (simp add: decode_def json_read_12)

section \<open>push\<close>

text \<open>
  C10: \<open>push(job)\<close> throws the assertion error 'Missing job to queue' for every falsy
  job, before anything is sent: with or without a callback the call ends in the
  assertion, no thunk is made and the state, with its trace of requests, is as it was.
  \<open>undefined\<close>, \<open>null\<close>, \<open>false\<close>, \<open>0\<close>, the empty string and \<open>NaN\<close> are such
  jobs.
\<close>

theorem push_falsy_job_throws:
  assumes "\<not> truthy job"
  shows "push env job = Inl (AssertionError ''Missing job to queue'') \<and>
         push_callback env job s = (Inl (AssertionError ''Missing job to queue''), s) \<and>
         list_all (\<lambda>j. push env j = Inl (AssertionError ''Missing job to queue''))
           [JUndefined, JNull, JBool False, JNum 0, JStr [], JNaN]"
  using assms by (simp add: push_def push_callback_def)

theorem push_falsy_job_throws_witness:
  "\<not> truthy (JNum 0) \<and>
   push (scripted False) (JNum 0) = Inl (AssertionError ''Missing job to queue'') \<and>
   push_callback (scripted False) (JNum 0) (start [] [] []) =
     (Inl (AssertionError ''Missing job to queue''), start [] [] []) \<and>
   list_all (\<lambda>j. push (scripted False) j = Inl (AssertionError ''Missing job to queue''))
     [JUndefined, JNull, JBool False, JNum 0, JStr [], JNaN]"
proof -
  have h: "\<not> truthy (JNum 0)" by simp
  show ?thesis
    using h push_falsy_job_throws [OF h, of "scripted False" "start [] [] []"] by simp
qed

text \<open>
  C6: for every job that is not falsy, \<open>push(job)\<close> is accepted, and its generator
  (called at once when there is a callback, by the caller of the thunk otherwise) makes
  exactly one request, on the publish session: \<open>put\<close> with priority 0, delay 0, time to
  run 601 and the JSON text of the job as payload. 601 is the processing deadline of ten
  minutes in seconds, rounded up, plus one. The generator resolves with nothing, whatever
  job id the broker assigned, or fails with the failure of the request.
\<close>

theorem push_issues_one_put:
  assumes "truthy job"
  shows "push env job = Inr (push_body env job) \<and>
         push_callback env job s = push_body env job s \<and>
         requests_of (trace (snd (push_body env job s))) =
           requests_of (trace s) @ [Request PutSession (Put 0 0 601 (json_stringify env job))] \<and>
         fst (push_body env job s) =
           (case fst (put_reply env PutSession 0 0 601 (json_stringify env job) (world s)) of
              Inl error \<Rightarrow> Inl error
            | Inr jobID \<Rightarrow> Inr ()) \<and>
         (PROCESSING_TIMEOUT + 999) div 1000 + 1 = 601"
  using assms
  by (auto simp: push_def push_callback_def push_body_def request_put_def record_action_def
      PROCESSING_TIMEOUT_def Let_def split: prod.splits sum.splits)

theorem push_issues_one_put_witness:
  "truthy (JArr [JNum 1, JNum 2]) \<and>
   push (scripted False) (JArr [JNum 1, JNum 2]) =
     Inr (push_body (scripted False) (JArr [JNum 1, JNum 2])) \<and>
   push_callback (scripted False) (JArr [JNum 1, JNum 2]) (start [] [] []) =
     push_body (scripted False) (JArr [JNum 1, JNum 2]) (start [] [] []) \<and>
   requests_of (trace (snd (push_body (scripted False) (JArr [JNum 1, JNum 2]) (start [] [] [])))) =
     [Request PutSession (Put 0 0 601 ''[1,2]'')] \<and>
   fst (push_body (scripted False) (JArr [JNum 1, JNum 2]) (start [] [] [])) = Inr ()"
proof -
  have h: "truthy (JArr [JNum 1, JNum 2])" by simp
  have w: "json_write (JArr [JNum 1, JNum 2]) = ''[1,2]''" by code_simp
  show ?thesis
    using h w push_issues_one_put [OF h, of "scripted False" "start [] [] []"]
    by (simp add: next_ack_def)
qed

section \<open>_runAndDestroy\<close>

text \<open>
  C9: for every reserved job whose handlers all succeed, \<open>_runAndDestroy\<close> requests
  \<open>destroy(jobID)\<close> on the session of the job, and that is its only request: no
  release. If the request fails, the failure is reported with \<open>notify.info\<close>
  ('Could not delete job') and goes no further: \<open>_runAndDestroy\<close> returns all the same.
\<close>

theorem runAndDestroy_destroy_failure_swallowed:
  assumes "handlers_result env (handlers q) (decode env payload) (world s) = None"
  shows "fst (runAndDestroy env q session jobID payload s) = None \<and>
         requests_of (trace (snd (runAndDestroy env q session jobID payload s))) =
           requests_of (trace s) @ [Request session (Destroy jobID)] \<and>
         trace (snd (runAndDestroy env q session jobID payload s)) =
           trace s @
           [Notify_info ''Processing queued job %s:%s'', Notify_debug ''Payload for job %s:%s:''] @
           map (\<lambda>h. RunJob h (decode env payload) PROCESSING_TIMEOUT) (handlers q) @
           [Notify_info ''Completed queued job %s:%s'', Request session (Destroy jobID)] @
           (case fst (destroy_reply env session jobID
                        (world_after env (handlers q) (decode env payload) (world s))) of
              Inl error \<Rightarrow> [Notify_info ''Could not delete job %s:%s'']
            | Inr u \<Rightarrow> [])"
  by (simp add: runAndDestroy_success [OF assms] handlers_run_all [OF assms] split: sum.splits)

theorem runAndDestroy_destroy_failure_swallowed_witness:
  "handlers_result (scripted False) (handlers \<lparr>processing = True, handlers = [0, 1]\<rparr>)
     (decode (scripted False) ''[1,2]'') (world (start [] [Some (Str ''NOT_FOUND'')] [])) = None \<and>
   fst (runAndDestroy (scripted False) \<lparr>processing = True, handlers = [0, 1]\<rparr> (ReserveSession 0) 7
          ''[1,2]'' (start [] [Some (Str ''NOT_FOUND'')] [])) = None \<and>
   requests_of (trace (snd (runAndDestroy (scripted False) \<lparr>processing = True, handlers = [0, 1]\<rparr>
          (ReserveSession 0) 7 ''[1,2]'' (start [] [Some (Str ''NOT_FOUND'')] [])))) =
     [Request (ReserveSession 0) (Destroy 7)] \<and>
   trace (snd (runAndDestroy (scripted False) \<lparr>processing = True, handlers = [0, 1]\<rparr>
          (ReserveSession 0) 7 ''[1,2]'' (start [] [Some (Str ''NOT_FOUND'')] []))) =
     [Notify_info ''Processing queued job %s:%s'', Notify_debug ''Payload for job %s:%s:'',
      RunJob 0 (JArr [JNum 1, JNum 2]) 600000, RunJob 1 (JArr [JNum 1, JNum 2]) 600000,
      Notify_info ''Completed queued job %s:%s'', Request (ReserveSession 0) (Destroy 7),
      Notify_info ''Could not delete job %s:%s'']"
proof -
  note d = decode_12 [of False]
  have h: "handlers_result (scripted False) (handlers \<lparr>processing = True, handlers = [0, 1]\<rparr>)
     (decode (scripted False) ''[1,2]'') (world (start [] [Some (Str ''NOT_FOUND'')] [])) = None"
    by (simp add: d)
  show ?thesis
    using h runAndDestroy_destroy_failure_swallowed [OF h, of "ReserveSession 0" 7]
    by (simp add: d next_ack_def PROCESSING_TIMEOUT_def)
qed



text \<open>
  C3, where the code departs from it: the first handler fails with \<open>Error('boom')\<close>
  and the release request is rejected with \<open>Error('TIMED_OUT')\<close> (the connection
  closed while it was pending). The second handler is not run and \<open>release(7, 0, 60)\<close>
  is requested, as the claim says; but what \<open>_runAndDestroy\<close> throws is the failure of
  the release, not the failure of the handler. (When the release succeeds the failure of
  the handler is thrown: lemma \<open>runAndDestroy_failure\<close>.)
\<close>

theorem runAndDestroy_release_failure_hides_failure:
  "runAndDestroy (scripted False) \<lparr>processing = True, handlers = [0, 1]\<rparr> (ReserveSession 0) 7
     ''[1,2]'' (start [] [Some (Error ''TIMED_OUT'')] [Some (Error ''boom'')]) =
   (Some (Error ''TIMED_OUT''),
    \<lparr>world = \<lparr>reserves = [], acks = [], outcomes = []\<rparr>,
     trace =
       [Notify_info ''Processing queued job %s:%s'', Notify_debug ''Payload for job %s:%s:'',
        RunJob 0 (JArr [JNum 1, JNum 2]) 600000,
        Notify_info ''Error processing queued job %s:%ss'',
        Request (ReserveSession 0) (Release 7 0 60)]\<rparr>)"
proof -
  note d = decode_12 [of False]
  have h: "handlers_result (scripted False) (handlers \<lparr>processing = True, handlers = [0, 1]\<rparr>)
     (decode (scripted False) ''[1,2]'')
     (world (start [] [Some (Error ''TIMED_OUT'')] [Some (Error ''boom'')])) = Some (Error ''boom'')"
    by (simp add: d)
  show ?thesis
    using runAndDestroy_failure [OF h, of "ReserveSession 0" 7]
    by (simp add: d next_ack_def PROCESSING_TIMEOUT_def start_def)
qed

section \<open>_processContinously\<close>

lemma alarms_of_append [simp]: "alarms_of (xs @ ys) = alarms_of xs @ alarms_of ys"
  by (simp add: alarms_of_def)

lemma alarms_of_runs [simp]: "alarms_of (map (\<lambda>h. RunJob h p t) hs) = []"
  by (induction hs) (simp_all add: alarms_of_def)

lemma alarms_of_simps [simp]:
  "alarms_of [] = []"
  "alarms_of (Request session cmd # as) = alarms_of as"
  "alarms_of (RunJob h p t # as) = alarms_of as"
  "alarms_of (Notify_debug m # as) = alarms_of as"
  "alarms_of (Notify_info m # as) = alarms_of as"
  "alarms_of (Notify_error e # as) = Notify_error e # alarms_of as"
  "alarms_of (SetTimeout d # as) = SetTimeout d # alarms_of as"
  by (simp_all add: alarms_of_def)

lemma reserves_of_append [simp]: "reserves_of (xs @ ys) = reserves_of xs @ reserves_of ys"
  by (simp add: reserves_of_def)

lemma reserves_of_runs [simp]: "reserves_of (map (\<lambda>h. RunJob h p t) hs) = []"
  by (induction hs) (simp_all add: reserves_of_def)

lemma reserves_of_simps [simp]:
  "reserves_of [] = []"
  "reserves_of (Request session (Reserve_with_timeout timeout) # as) =
     Request session (Reserve_with_timeout timeout) # reserves_of as"
  "reserves_of (Request session (Destroy jobID) # as) = reserves_of as"
  "reserves_of (Request session (Release jobID priority delay) # as) = reserves_of as"
  "reserves_of (RunJob h p t # as) = reserves_of as"
  "reserves_of (Notify_debug m # as) = reserves_of as"
  "reserves_of (Notify_info m # as) = reserves_of as"
  "reserves_of (Notify_error e # as) = reserves_of as"
  "reserves_of (SetTimeout d # as) = reserves_of as"
  by (simp_all add: reserves_of_def)


lemma runAndDestroy_reserves:
  "reserves_of (trace (snd (runAndDestroy env q session jobID payload s))) = reserves_of (trace s)"
proof (cases "handlers_result env (handlers q) (decode env payload) (world s)")
  case None
  show ?thesis
    by (simp add: runAndDestroy_success [OF None] split: sum.splits)
next
  case (Some error)
  show ?thesis
    by (simp add: runAndDestroy_failure [OF Some])
qed






section \<open>once\<close>

lemma once_loop_drained:
  "drained k env q s = Some s1 \<Longrightarrow> turn_failure env q s1 = Some (error, s2) \<Longrightarrow> k < n \<Longrightarrow>
   once_loop n env q any s = Some (once_catch (any \<or> 0 < k) error, s2)"
proof (induction k arbitrary: n s any)
  case 0
  then obtain m where n: "n = Suc m" by (cases n) auto
  from 0 show ?case
    by (auto simp: n turn_failure_def split: prod.splits sum.splits option.splits)
next
  case (Suc k)
  then obtain m where n: "n = Suc m" and km: "k < m" by (cases n) auto
  from Suc.prems(1) obtain jobID payload sa sb where
    r: "request_reserve env (ReserveSession 0) 0 s = (Inr (jobID, payload), sa)" and
    d: "runAndDestroy env q (ReserveSession 0) jobID payload sa = (None, sb)" and
    rest: "drained k env q sb = Some s1"
    by (auto split: prod.splits sum.splits option.splits)
  have "once_loop m env q True sb = Some (once_catch (True \<or> 0 < k) error, s2)"
    using Suc.IH [OF rest Suc.prems(2) km] .
  then show ?case
    by (simp add: n r d)
qed

lemma drained_reserves:
  "drained k env q s = Some s1 \<Longrightarrow>
   reserves_of (trace s1) =
     reserves_of (trace s) @ replicate k (Request (ReserveSession 0) (Reserve_with_timeout 0))"
proof (induction k arbitrary: s)
  case 0
  then show ?case by simp
next
  case (Suc k)
  from Suc.prems obtain jobID payload sa sb where
    r: "request_reserve env (ReserveSession 0) 0 s = (Inr (jobID, payload), sa)" and
    d: "runAndDestroy env q (ReserveSession 0) jobID payload sa = (None, sb)" and
    rest: "drained k env q sb = Some s1"
    by (auto split: prod.splits sum.splits option.splits)
  have a: "reserves_of (trace sa) =
     reserves_of (trace s) @ [Request (ReserveSession 0) (Reserve_with_timeout 0)]"
    using r by (auto simp: request_reserve_def record_action_def split: prod.splits)
  have b: "reserves_of (trace sb) = reserves_of (trace sa)"
    using runAndDestroy_reserves [of env q "ReserveSession 0" jobID payload sa] d by simp
  show ?case
    using Suc.IH [OF rest] a b by (simp add: replicate_app_Cons_same)
qed

lemma turn_failure_reserves:
  "turn_failure env q s = Some (error, s2) \<Longrightarrow>
   reserves_of (trace s2) =
     reserves_of (trace s) @ [Request (ReserveSession 0) (Reserve_with_timeout 0)]"
proof -
  assume t: "turn_failure env q s = Some (error, s2)"
  obtain r sa where r: "request_reserve env (ReserveSession 0) 0 s = (r, sa)"
    by (cases "request_reserve env (ReserveSession 0) 0 s")
  have a: "reserves_of (trace sa) =
     reserves_of (trace s) @ [Request (ReserveSession 0) (Reserve_with_timeout 0)]"
    using r by (auto simp: request_reserve_def record_action_def split: prod.splits)
  show ?thesis
  proof (cases r)
    case (Inl e)
    with t r a show ?thesis by (simp add: turn_failure_def)
  next
    case (Inr job)
    obtain jobID payload where job: "job = (jobID, payload)" by (cases job)
    have "reserves_of (trace (snd (runAndDestroy env q (ReserveSession 0) jobID payload sa))) =
      reserves_of (trace sa)"
      by (rule runAndDestroy_reserves)
    with t r a Inr job show ?thesis
      by (auto simp: turn_failure_def split: prod.splits option.splits)
  qed
qed

text \<open>
  C5, as the code has it: \<open>once()\<close> throws the assertion error while the queue is
  processing; with no handler it returns false without any reservation; otherwise it
  reserves with timeout 0 and runs and destroys job after job until a turn fails, in the
  reservation or in \<open>_runAndDestroy\<close>. If the failure is the 'TIMED_OUT' condition (the
  string, or a message) it returns whether a turn was completed before; any other failure
  is thrown to the caller. After \<open>k\<close> completed turns the failing turn is reached with
  \<open>k + 1\<close> reservations made, and any fuel above \<open>k\<close> is enough.
\<close>

theorem once_drains:
  "(processing q \<longrightarrow>
      once n env q s =
        Some (Inl (AssertionError ''Cannot call once while continuously processing jobs''), s)) \<and>
   (\<not> processing q \<and> handlers q = [] \<longrightarrow> once n env q s = Some (Inr False, s)) \<and>
   (\<not> processing q \<and> handlers q \<noteq> [] \<and>
    drained k env q (record_action (Notify_debug ''Waiting for jobs on queue %s'') s) = Some s1 \<and>
    turn_failure env q s1 = Some (error, s2) \<and> k < n \<longrightarrow>
      once n env q s = Some (if is_TIMED_OUT error then Inr (0 < k) else Inl error, s2) \<and>
      reserves_of (trace s2) =
        reserves_of (trace s) @
        replicate (Suc k) (Request (ReserveSession 0) (Reserve_with_timeout 0)))"
proof (intro conjI impI)
  assume "processing q"
  then show "once n env q s =
    Some (Inl (AssertionError ''Cannot call once while continuously processing jobs''), s)"
    by (simp add: once_def)
next
  assume "\<not> processing q \<and> handlers q = []"
  then show "once n env q s = Some (Inr False, s)"
    by (simp add: once_def)
next
  assume h: "\<not> processing q \<and> handlers q \<noteq> [] \<and>
    drained k env q (record_action (Notify_debug ''Waiting for jobs on queue %s'') s) = Some s1 \<and>
    turn_failure env q s1 = Some (error, s2) \<and> k < n"
  then have "once_loop n env q False (record_action (Notify_debug ''Waiting for jobs on queue %s'') s) =
    Some (once_catch (False \<or> 0 < k) error, s2)"
    using once_loop_drained by blast
  with h show "once n env q s = Some (if is_TIMED_OUT error then Inr (0 < k) else Inl error, s2)"
    by (simp add: once_def once_catch_def)
next
  assume h: "\<not> processing q \<and> handlers q \<noteq> [] \<and>
    drained k env q (record_action (Notify_debug ''Waiting for jobs on queue %s'') s) = Some s1 \<and>
    turn_failure env q s1 = Some (error, s2) \<and> k < n"
  then have "reserves_of (trace s1) =
     reserves_of (trace (record_action (Notify_debug ''Waiting for jobs on queue %s'') s)) @
     replicate k (Request (ReserveSession 0) (Reserve_with_timeout 0))"
    using drained_reserves by blast
  moreover have "reserves_of (trace s2) =
     reserves_of (trace s1) @ [Request (ReserveSession 0) (Reserve_with_timeout 0)]"
    using h turn_failure_reserves by blast
  ultimately show "reserves_of (trace s2) =
        reserves_of (trace s) @
        replicate (Suc k) (Request (ReserveSession 0) (Reserve_with_timeout 0))"
    by (simp add: record_action_def replicate_append_same)
qed

text \<open>
  C5 as stated fails: with no handler registered \<open>once()\<close> returns false at once and
  reserves nothing, although a reservation would have found job 7.
\<close>

theorem once_without_handlers_reserves_nothing:
  "once 5 (scripted False) \<lparr>processing = False, handlers = []\<rparr> (start [Inr (7, ''[1,2]'')] [] []) =
     Some (Inr False, start [Inr (7, ''[1,2]'')] [] []) \<and>
   reserves_of (trace (start [Inr (7, ''[1,2]'')] [] [])) = [] \<and>
   fst (reserve_reply (scripted False) (ReserveSession 0) 0
          (world (start [Inr (7, ''[1,2]'')] [] []))) = Inr (7, ''[1,2]'')"
  by (simp add: once_def)

lemma drained_example:
  "drained 1 (scripted False) \<lparr>processing = False, handlers = [0]\<rparr>
     (record_action (Notify_debug ''Waiting for jobs on queue %s'') (start [Inr (7, ''[1,2]'')] [] [])) =
   Some \<lparr>world = \<lparr>reserves = [], acks = [], outcomes = []\<rparr>,
         trace =
           [Notify_debug ''Waiting for jobs on queue %s'',
            Request (ReserveSession 0) (Reserve_with_timeout 0),
            Notify_info ''Processing queued job %s:%s'', Notify_debug ''Payload for job %s:%s:'',
            RunJob 0 (JArr [JNum 1, JNum 2]) 600000,
            Notify_info ''Completed queued job %s:%s'',
            Request (ReserveSession 0) (Destroy 7)]\<rparr>"
  by (simp add: request_reserve_def runAndDestroy_def run_job_def request_destroy_def
      record_action_def decode_12 next_ack_def PROCESSING_TIMEOUT_def start_def)

lemma turn_failure_example:
  "turn_failure (scripted False) \<lparr>processing = False, handlers = [0]\<rparr>
     \<lparr>world = \<lparr>reserves = [], acks = [], outcomes = []\<rparr>, trace = as\<rparr> =
   Some (Str ''TIMED_OUT'',
         \<lparr>world = \<lparr>reserves = [], acks = [], outcomes = []\<rparr>,
          trace = as @ [Request (ReserveSession 0) (Reserve_with_timeout 0)]\<rparr>)"
  by (simp add: turn_failure_def request_reserve_def record_action_def)

theorem once_drains_witness:
  "processing \<lparr>processing = True, handlers = [0]\<rparr> \<and>
   once 5 (scripted False) \<lparr>processing = True, handlers = [0]\<rparr> (start [Inr (7, ''[1,2]'')] [] []) =
     Some (Inl (AssertionError ''Cannot call once while continuously processing jobs''),
           start [Inr (7, ''[1,2]'')] [] []) \<and>
   handlers \<lparr>processing = False, handlers = []\<rparr> = [] \<and>
   once 5 (scripted False) \<lparr>processing = False, handlers = []\<rparr> (start [Inr (7, ''[1,2]'')] [] []) =
     Some (Inr False, start [Inr (7, ''[1,2]'')] [] []) \<and>
   drained 1 (scripted False) \<lparr>processing = False, handlers = [0]\<rparr>
     (record_action (Notify_debug ''Waiting for jobs on queue %s'') (start [Inr (7, ''[1,2]'')] [] [])) =
     Some \<lparr>world = \<lparr>reserves = [], acks = [], outcomes = []\<rparr>,
         trace =
           [Notify_debug ''Waiting for jobs on queue %s'',
            Request (ReserveSession 0) (Reserve_with_timeout 0),
            Notify_info ''Processing queued job %s:%s'', Notify_debug ''Payload for job %s:%s:'',
            RunJob 0 (JArr [JNum 1, JNum 2]) 600000,
            Notify_info ''Completed queued job %s:%s'',
            Request (ReserveSession 0) (Destroy 7)]\<rparr> \<and>
   is_TIMED_OUT (Str ''TIMED_OUT'') \<and>
   once 5 (scripted False) \<lparr>processing = False, handlers = [0]\<rparr> (start [Inr (7, ''[1,2]'')] [] []) =
     Some (Inr True,
       \<lparr>world = \<lparr>reserves = [], acks = [], outcomes = []\<rparr>,
         trace =
           [Notify_debug ''Waiting for jobs on queue %s'',
            Request (ReserveSession 0) (Reserve_with_timeout 0),
            Notify_info ''Processing queued job %s:%s'', Notify_debug ''Payload for job %s:%s:'',
            RunJob 0 (JArr [JNum 1, JNum 2]) 600000,
            Notify_info ''Completed queued job %s:%s'',
            Request (ReserveSession 0) (Destroy 7),
            Request (ReserveSession 0) (Reserve_with_timeout 0)]\<rparr>)"
proof -
  let ?s0 = "start [Inr (7, ''[1,2]'')] [] [] :: script st"
  let ?S1 = "\<lparr>world = \<lparr>reserves = [], acks = [], outcomes = []\<rparr>,
         trace =
           [Notify_debug ''Waiting for jobs on queue %s'',
            Request (ReserveSession 0) (Reserve_with_timeout 0),
            Notify_info ''Processing queued job %s:%s'', Notify_debug ''Payload for job %s:%s:'',
            RunJob 0 (JArr [JNum 1, JNum 2]) 600000,
            Notify_info ''Completed queued job %s:%s'',
            Request (ReserveSession 0) (Destroy 7)]\<rparr>"
  let ?S2 = "?S1\<lparr>trace := trace ?S1 @ [Request (ReserveSession 0) (Reserve_with_timeout 0)]\<rparr>"
  have d: "drained 1 (scripted False) \<lparr>processing = False, handlers = [0]\<rparr>
     (record_action (Notify_debug ''Waiting for jobs on queue %s'') ?s0) = Some ?S1"
    by (rule drained_example)
  have t: "turn_failure (scripted False) \<lparr>processing = False, handlers = [0]\<rparr> ?S1 =
     Some (Str ''TIMED_OUT'', ?S2)"
    using turn_failure_example by simp
  have a: "once 5 (scripted False) \<lparr>processing = True, handlers = [0]\<rparr> ?s0 =
     Some (Inl (AssertionError ''Cannot call once while continuously processing jobs''), ?s0)"
    using once_drains [of "\<lparr>processing = True, handlers = [0]\<rparr>" 5 "scripted False" ?s0]
    by simp
  have b: "once 5 (scripted False) \<lparr>processing = False, handlers = []\<rparr> ?s0 = Some (Inr False, ?s0)"
    using once_drains [of "\<lparr>processing = False, handlers = []\<rparr>" 5 "scripted False" ?s0]
    by simp
  have c: "once 5 (scripted False) \<lparr>processing = False, handlers = [0]\<rparr> ?s0 = Some (Inr True, ?S2)"
    using once_drains [of "\<lparr>processing = False, handlers = [0]\<rparr>" 5 "scripted False" ?s0
        1 ?S1 "Str ''TIMED_OUT''" ?S2] d t
    by (simp add: is_TIMED_OUT_def)
  show ?thesis
    using a b c d by (simp add: is_TIMED_OUT_def)
qed

section \<open>Session: the invariant\<close>

lemma update_client_fields [simp]:
  "requests (update_client c f s) = requests s"
  "s_client (update_client c f s) = s_client s"
  "authenticate (update_client c f s) = authenticate s"
  "setup_steps (update_client c f s) = setup_steps s"
  "length (clients (update_client c f s)) = length (clients s)"
  "needs_authentication (update_client c f s) = needs_authentication s"
  by (simp_all add: update_client_def needs_authentication_def)

lemma update_client_clients:
  "clients (update_client c f s) =
     (if c < length (clients s) then (clients s)[c := f (clients s ! c)] else clients s)"
  by (simp add: update_client_def)

lemma run_Nil: "run s [] = s"
  by (simp add: run_def)

lemma run_Cons: "run s (ev # evs) = run (step s ev) evs"
  by (simp add: run_def)





lemma list_all_update: "list_all P xs \<Longrightarrow> P x \<Longrightarrow> list_all P (xs[i := x])"
  by (induction xs arbitrary: i) (auto split: nat.splits)

lemma list_all_nth: "list_all P xs \<Longrightarrow> i < length xs \<Longrightarrow> P (xs ! i)"
  by (simp add: list_all_length)

lemma promise_ok_mono: "promise_ok n p \<Longrightarrow> promise_ok (Suc n) p"
  by (auto simp: promise_ok_def split: promise.splits)

lemma promises_ok_mono:
  "list_all (promise_ok n) ps \<Longrightarrow> list_all (promise_ok (Suc n)) ps"
  by (induction ps) (auto intro: promise_ok_mono)

lemma promises_ok_map:
  "list_all (promise_ok n) ps \<Longrightarrow> promise_ok n p' \<Longrightarrow>
   list_all (promise_ok n) (map (\<lambda>p. if p = p0 then p' else p) ps)"
  by (induction ps) auto

lemma wf_new_session: "wf (new_session auth steps)"
  by (simp add: wf_def new_session_def stored_ok_def)

lemma wf_request: "wf s \<Longrightarrow> wf (request s)"
  by (auto simp: wf_def request_def connect_def stored_ok_def promise_ok_def client_ok_def
      new_client_def needs_authentication_def nth_append
      intro: promises_ok_mono split: option.splits)

lemma wf_session_end: "wf s \<Longrightarrow> wf (session_end s)"
  by (auto simp: wf_def session_end_def stored_ok_def update_client_clients client_ok_def
      initialised_def needs_authentication_def
      intro!: list_all_update dest: list_all_nth split: option.splits phase.splits)

lemma wf_on_close: "wf s \<Longrightarrow> wf (on_close c s)"
  by (auto simp: wf_def on_close_def stored_ok_def promise_ok_def needs_authentication_def
      intro!: promises_ok_map split: option.splits)

lemma wf_on_error: "wf s \<Longrightarrow> wf (on_error c e s)"
  by (auto simp: wf_def on_error_def stored_ok_def promise_ok_def update_client_clients
      client_ok_def initialised_def needs_authentication_def nth_list_update
      intro!: promises_ok_map list_all_update dest: list_all_nth
      split: option.splits phase.splits)

lemma wf_on_completion: "wf s \<Longrightarrow> wf (on_completion r err results s)"
  by (auto simp: wf_def on_completion_def stored_ok_def promise_ok_def needs_authentication_def
      intro!: list_all_update split: option.splits promise.splits)

lemma wf_connect_return:
  assumes "wf s" "c < length (clients s)"
    "initialised (needs_authentication s) (setup_steps s) (clients s ! c)"
  shows "wf (connect_return c s)"
  using assms
  by (auto simp: wf_def connect_return_def stored_ok_def promise_ok_def update_client_clients
      client_ok_def initialised_def needs_authentication_def
      intro!: promises_ok_map list_all_update)

lemma wf_connect_throw:
  assumes "wf s" "c < length (clients s)"
    "phase (clients s ! c) \<noteq> Returned"
  shows "wf (connect_throw c e s)"
  using assms
  by (auto simp: wf_def connect_throw_def stored_ok_def promise_ok_def update_client_clients
      client_ok_def needs_authentication_def nth_list_update
      intro!: promises_ok_map list_all_update split: option.splits)

lemma wf_update_client:
  assumes "wf s" "c < length (clients s)"
    "client_ok (needs_authentication s) (setup_steps s) (f (clients s ! c))"
    "phase (clients s ! c) = Returned \<Longrightarrow> phase (f (clients s ! c)) = Returned"
  shows "wf (update_client c f s)"
  using assms
  by (auto simp: wf_def stored_ok_def update_client_clients nth_list_update
      needs_authentication_def
      intro!: list_all_update split: option.splits)

lemma client_ok_nth: "wf s \<Longrightarrow> c < length (clients s) \<Longrightarrow>
  client_ok (needs_authentication s) (setup_steps s) (clients s ! c)"
  by (simp add: wf_def list_all_nth)

lemma wf_start_setup:
  assumes "wf s" "c < length (clients s)" "connected (clients s ! c)"
    "if needs_authentication s then authenticated (clients s ! c) else True"
    "setups (clients s ! c) = 0" "phase (clients s ! c) \<noteq> Returned"
  shows "wf (start_setup c s)"
proof (cases "setup_steps s = 0")
  case True
  with assms show ?thesis
    by (simp add: start_setup_def wf_connect_return initialised_def)
next
  case False
  with assms show ?thesis
    by (auto simp: start_setup_def client_ok_def intro!: wf_update_client)
qed

lemma wf_connect_return_update:
  assumes "wf s" "c < length (clients s)"
    "initialised (needs_authentication s) (setup_steps s) (f (clients s ! c))"
  shows "wf (connect_return c (update_client c f s))"
  using assms
  by (auto simp: wf_def connect_return_def stored_ok_def promise_ok_def update_client_clients
      client_ok_def initialised_def needs_authentication_def
      intro!: promises_ok_map list_all_update)

lemma update_client_twice:
  "update_client c f (update_client c g s) = update_client c (\<lambda>cl. f (g cl)) s"
  by (simp add: update_client_def)

lemma wf_on_connect: "wf s \<Longrightarrow> wf (on_connect c s)"
proof (cases "c < length (clients s)")
  case False
  assume "wf s"
  with False show ?thesis by (simp add: on_connect_def)
next
  case True
  assume w: "wf s"
  note ok = client_ok_nth [OF w True]
  show ?thesis
  proof (cases "phase (clients s ! c) = Await_connect")
    case False
    with w True ok show ?thesis
      by (auto simp: on_connect_def Let_def client_ok_def initialised_def
          intro!: wf_update_client split: phase.splits)
  next
    case ac: True
    show ?thesis
    proof (cases "needs_authentication s")
      case True
      with w \<open>c < length (clients s)\<close> ok ac show ?thesis
        by (auto simp: on_connect_def Let_def client_ok_def update_client_twice
            intro!: wf_update_client)
    next
      case False
      show ?thesis
      proof (cases "setup_steps s = 0")
        case True
        with w \<open>c < length (clients s)\<close> ok ac False show ?thesis
          by (auto simp: on_connect_def Let_def start_setup_def client_ok_def initialised_def
              intro!: wf_connect_return_update)
      next
        case nz: False
        with w \<open>c < length (clients s)\<close> ok ac False show ?thesis
          by (auto simp: on_connect_def Let_def start_setup_def client_ok_def
              update_client_twice intro!: wf_update_client)
      qed
    qed
  qed
qed

lemma wf_on_reply: "wf s \<Longrightarrow> wf (on_reply c err s)"
proof (cases "c < length (clients s)")
  case False
  assume "wf s"
  with False show ?thesis by (simp add: on_reply_def)
next
  case True
  assume w: "wf s"
  note ok = client_ok_nth [OF w True]
  show ?thesis
  proof (cases "phase (clients s ! c)")
    case Await_connect
    with w True show ?thesis by (simp add: on_reply_def)
  next
    case Returned
    with w True show ?thesis by (simp add: on_reply_def)
  next
    case (Threw e)
    with w True show ?thesis by (simp add: on_reply_def)
  next
    case Await_authenticate
    show ?thesis
    proof (cases err)
      case (Some error)
      with w True Await_authenticate show ?thesis
        by (simp add: on_reply_def wf_connect_throw)
    next
      case None
      show ?thesis
      proof (cases "setup_steps s = 0")
        case z: True
        with w True ok Await_authenticate None show ?thesis
          by (auto simp: on_reply_def start_setup_def client_ok_def initialised_def
              intro!: wf_connect_return_update)
      next
        case nz: False
        with w True ok Await_authenticate None show ?thesis
          by (auto simp: on_reply_def start_setup_def client_ok_def update_client_twice
              intro!: wf_update_client)
      qed
    qed
  next
    case (Await_setup i)
    show ?thesis
    proof (cases err)
      case (Some error)
      with w True Await_setup show ?thesis
        by (simp add: on_reply_def wf_connect_throw)
    next
      case None
      show ?thesis
      proof (cases "Suc i < setup_steps s")
        case more: True
        with w True ok Await_setup None show ?thesis
          by (auto simp: on_reply_def Let_def client_ok_def update_client_twice
              intro!: wf_update_client)
      next
        case last: False
        with w True ok Await_setup None show ?thesis
          by (auto simp: on_reply_def Let_def client_ok_def initialised_def
              intro!: wf_connect_return_update)
      qed
    qed
  qed
qed

lemma wf_step: "wf s \<Longrightarrow> wf (step s ev)"
  by (cases ev)
     (simp_all add: wf_request wf_session_end wf_on_connect wf_on_reply wf_on_completion
       wf_on_error wf_on_close)

lemma wf_run: "wf s \<Longrightarrow> wf (run s evs)"
  by (induction evs arbitrary: s) (simp_all add: wf_step run_Nil run_Cons)

lemma wf_reachable: "wf (run (new_session auth steps) evs)"
  by (simp add: wf_run wf_new_session)

section \<open>Session: requests and connections\<close>



lemma run_example_in_flight:
  "run (new_session None 1) [Call_request, On_connect 0, On_reply 0 None] =
     \<lparr>authenticate = None, setup_steps = 1, s_client = Some 0,
      clients = [\<lparr>phase = Returned, connected = True, authenticated = False, setups = 1,
                  ended = False\<rparr>],
      requests = [In_flight 0]\<rparr>"
  by (simp add: run_Nil run_Cons new_session_def request_def connect_def new_client_def
      on_connect_def on_reply_def start_setup_def connect_return_def update_client_def
      needs_authentication_def)



lemma request_unstored:
  "s_client s = None \<Longrightarrow>
   request s = s\<lparr>clients := clients s @ [new_client],
                 requests := requests s @ [Connecting (length (clients s))]\<rparr>"
  by (simp add: request_def connect_def)

lemma request_stored:
  "s_client s = Some c \<Longrightarrow> request s = s\<lparr>requests := requests s @ [In_flight c]\<rparr>"
  by (simp add: request_def connect_def)

lemma requests_unstored:
  "s_client s = None \<Longrightarrow>
   run s (replicate n Call_request) =
     s\<lparr>clients := clients s @ replicate n new_client,
       requests := requests s @ map Connecting [length (clients s) ..< length (clients s) + n]\<rparr>"
proof (induction n arbitrary: s)
  case 0
  then show ?case by (simp add: run_Nil)
next
  case (Suc n)
  let ?s1 = "request s"
  have s1: "?s1 = s\<lparr>clients := clients s @ [new_client],
                 requests := requests s @ [Connecting (length (clients s))]\<rparr>"
    using Suc.prems by (rule request_unstored)
  have n1: "s_client ?s1 = None"
    using Suc.prems by (simp add: s1)
  have u: "[length (clients s) ..< length (clients s) + Suc n] =
     length (clients s) # [Suc (length (clients s)) ..< Suc (length (clients s)) + n]"
    by (simp add: upt_conv_Cons del: upt_Suc)
  have "run s (replicate (Suc n) Call_request) = run ?s1 (replicate n Call_request)"
    by (simp add: run_Cons)
  also have "\<dots> = ?s1\<lparr>clients := clients ?s1 @ replicate n new_client,
       requests := requests ?s1 @
         map Connecting [length (clients ?s1) ..< length (clients ?s1) + n]\<rparr>"
    by (rule Suc.IH [OF n1])
  also have "\<dots> = s\<lparr>clients := clients s @ replicate (Suc n) new_client,
       requests := requests s @
         map Connecting [length (clients s) ..< length (clients s) + Suc n]\<rparr>"
    unfolding u by (simp add: s1 replicate_app_Cons_same del: upt_Suc)
  finally show ?case .
qed

lemma requests_stored:
  "s_client s = Some c \<Longrightarrow>
   run s (replicate n Call_request) = s\<lparr>requests := requests s @ replicate n (In_flight c)\<rparr>"
proof (induction n arbitrary: s)
  case 0
  then show ?case by (simp add: run_Nil)
next
  case (Suc n)
  let ?s1 = "request s"
  have s1: "?s1 = s\<lparr>requests := requests s @ [In_flight c]\<rparr>"
    using Suc.prems by (rule request_stored)
  have n1: "s_client ?s1 = Some c"
    using Suc.prems by (simp add: s1)
  show ?case
    using Suc.IH [OF n1]
    by (simp add: run_Cons s1 replicate_app_Cons_same)
qed

text \<open>
  C2, as the code has it: a session shares a client only once a call of \<open>connect\<close>
  has returned and stored it. While a client is stored, \<open>connect\<close> returns it and opens
  nothing, and \<open>n\<close> requests are all sent on it. While none is stored, every request
  calls \<open>connect\<close> for itself, and each call opens a client of its own: \<open>n\<close> requests
  made before any call has returned open \<open>n\<close> clients and wait on \<open>n\<close> calls.
\<close>

theorem connect_opens_unless_stored:
  "(s_client s = None \<longrightarrow>
      run s (replicate n Call_request) =
        s\<lparr>clients := clients s @ replicate n new_client,
          requests := requests s @ map Connecting [length (clients s) ..< length (clients s) + n]\<rparr>) \<and>
   (s_client s = Some c \<longrightarrow>
      connect s = (Handle c, s) \<and>
      run s (replicate n Call_request) = s\<lparr>requests := requests s @ replicate n (In_flight c)\<rparr>)"
  by (simp add: requests_unstored requests_stored connect_def)

theorem connect_opens_unless_stored_witness:
  "s_client (new_session None 2) = None \<and>
   run (new_session None 2) (replicate 2 Call_request) =
     \<lparr>authenticate = None, setup_steps = 2, s_client = None,
      clients = [new_client, new_client], requests = [Connecting 0, Connecting 1]\<rparr> \<and>
   s_client (run (new_session None 1) [Call_request, On_connect 0, On_reply 0 None]) = Some 0 \<and>
   connect (run (new_session None 1) [Call_request, On_connect 0, On_reply 0 None]) =
     (Handle 0, run (new_session None 1) [Call_request, On_connect 0, On_reply 0 None]) \<and>
   clients (run (run (new_session None 1) [Call_request, On_connect 0, On_reply 0 None])
              (replicate 2 Call_request)) =
     clients (run (new_session None 1) [Call_request, On_connect 0, On_reply 0 None]) \<and>
   requests (run (run (new_session None 1) [Call_request, On_connect 0, On_reply 0 None])
              (replicate 2 Call_request)) = [In_flight 0, In_flight 0, In_flight 0]"
proof -
  let ?s = "run (new_session None 1) [Call_request, On_connect 0, On_reply 0 None]"
  have a: "s_client (new_session None 2) = None" by (simp add: new_session_def)
  have b: "s_client ?s = Some 0" unfolding run_example_in_flight by simp
  have r: "requests ?s = [In_flight 0]" unfolding run_example_in_flight by simp
  have u: "[0 ..< 2] = [0, 1]" by (simp add: upt_rec)
  have n: "replicate 2 x = [x, x]" for x :: 'a by (simp add: numeral_2_eq_2)
  have c1: "run (new_session None 2) (replicate 2 Call_request) =
     \<lparr>authenticate = None, setup_steps = 2, s_client = None,
      clients = [new_client, new_client], requests = [Connecting 0, Connecting 1]\<rparr>"
    using a connect_opens_unless_stored [of "new_session None 2" 2]
    by (simp add: new_session_def u n [of new_client])
  have c2: "connect ?s = (Handle 0, ?s) \<and>
      run ?s (replicate 2 Call_request) = ?s\<lparr>requests := requests ?s @ replicate 2 (In_flight 0)\<rparr>"
    using b connect_opens_unless_stored [of ?s 2 0] by blast
  have c3: "clients (run ?s (replicate 2 Call_request)) = clients ?s"
    using c2 by simp
  have c4: "requests (run ?s (replicate 2 Call_request)) = [In_flight 0, In_flight 0, In_flight 0]"
    using c2 unfolding r n [of "In_flight 0"] by simp
  show ?thesis
    using a b c1 c2 c3 c4 by blast
qed

text \<open>
  C2 as stated fails: two requests on a new reservation session, the second made while
  the \<open>connect\<close> of the first is waiting, open two clients; when both calls of
  \<open>connect\<close> have returned, the first request is in flight on client 0 and the second
  on client 1, and the session has stored client 1.
\<close>

theorem concurrent_requests_open_two_transports:
  "run (new_session None 2) [Call_request, Call_request] =
     \<lparr>authenticate = None, setup_steps = 2, s_client = None,
      clients = [new_client, new_client], requests = [Connecting 0, Connecting 1]\<rparr> \<and>
   requests (run (new_session None 2)
      [Call_request, Call_request,
       On_connect 0, On_reply 0 None, On_reply 0 None,
       On_connect 1, On_reply 1 None, On_reply 1 None]) = [In_flight 0, In_flight 1] \<and>
   s_client (run (new_session None 2)
      [Call_request, Call_request,
       On_connect 0, On_reply 0 None, On_reply 0 None,
       On_connect 1, On_reply 1 None, On_reply 1 None]) = Some 1"
  by (simp add: run_Nil run_Cons new_session_def request_def connect_def new_client_def
      on_connect_def on_reply_def start_setup_def connect_return_def update_client_def
      needs_authentication_def)

lemma stored_initialised:
  assumes "s_client (run (new_session auth steps) evs) = Some c"
  shows "c < length (clients (run (new_session auth steps) evs)) \<and>
         phase (clients (run (new_session auth steps) evs) ! c) = Returned \<and>
         initialised (needs_authentication (run (new_session auth steps) evs))
           (setup_steps (run (new_session auth steps) evs))
           (clients (run (new_session auth steps) evs) ! c)"
proof -
  let ?s = "run (new_session auth steps) evs"
  have w: "wf ?s" by (rule wf_reachable)
  have a: "c < length (clients ?s) \<and> phase (clients ?s ! c) = Returned"
    using w assms by (simp add: wf_def stored_ok_def)
  then have "client_ok (needs_authentication ?s) (setup_steps ?s) (clients ?s ! c)"
    using w by (simp add: client_ok_nth)
  with a show ?thesis
    by (simp add: client_ok_def)
qed

lemma reported_failure_propagates:
  assumes "c < length (clients s)"
    and "phase (clients s ! c) = Await_authenticate \<or> phase (clients s ! c) = Await_setup i"
  shows "s_client (on_reply c (Some error) s) = s_client s \<and>
         phase (clients (on_reply c (Some error) s) ! c) = Threw error \<and>
         ended (clients (on_reply c (Some error) s) ! c) \<and>
         requests (on_reply c (Some error) s) =
           map (\<lambda>p. if p = Connecting c then Rejected error else p) (requests s)"
  using assms
  by (auto simp: on_reply_def connect_throw_def update_client_clients)

lemma stuck_step:
  assumes "c < length (clients s)" "phase (clients s ! c) = Await_connect"
    "ended (clients s ! c)"
    "r < length (requests s)" "requests s ! r = Connecting c" "ev \<noteq> On_connect c"
  shows "c < length (clients (step s ev)) \<and> phase (clients (step s ev) ! c) = Await_connect \<and>
         ended (clients (step s ev) ! c) \<and>
         r < length (requests (step s ev)) \<and> requests (step s ev) ! r = Connecting c"
  using assms
  by (cases ev)
     (auto simp: request_def connect_def session_end_def on_connect_def on_reply_def
       on_completion_def on_error_def on_close_def start_setup_def connect_return_def
       connect_throw_def update_client_clients Let_def nth_append nth_list_update
       split: option.splits phase.splits promise.splits)

lemma stuck_run:
  assumes "c < length (clients s)" "phase (clients s ! c) = Await_connect"
    "ended (clients s ! c)"
    "r < length (requests s)" "requests s ! r = Connecting c" "On_connect c \<notin> set evs"
  shows "c < length (clients (run s evs)) \<and> phase (clients (run s evs) ! c) = Await_connect \<and>
         ended (clients (run s evs) ! c) \<and>
         r < length (requests (run s evs)) \<and> requests (run s evs) ! r = Connecting c"
  using assms
proof (induction evs arbitrary: s)
  case Nil
  then show ?case by (simp add: run_Nil)
next
  case (Cons ev evs)
  have ne: "ev \<noteq> On_connect c" and rest: "On_connect c \<notin> set evs"
    using Cons.prems(6) by auto
  have st: "c < length (clients (step s ev)) \<and> phase (clients (step s ev) ! c) = Await_connect \<and>
         ended (clients (step s ev) ! c) \<and>
         r < length (requests (step s ev)) \<and> requests (step s ev) ! r = Connecting c"
    using Cons.prems(1-5) ne by (rule stuck_step)
  show ?case
    using Cons.IH [of "step s ev"] st rest by (simp add: run_Cons)
qed

text \<open>
  C8, where the code departs from it: a request on a new session opens client 0 and waits
  for its 'connect' event; the connection fails, and the client emits 'error'. The
  listener ends the client, but the \<open>connect()\<close> that waits for 'connect' is resumed by
  nothing else: whatever follows (the 'close' event, an \<open>end()\<close>, other requests), short
  of a 'connect' event of the dead client, the call has neither returned nor thrown and
  the request is still waiting for it. The failure is not propagated. (What the claim
  says of a stored client holds: lemmas \<open>request_stored\<close>,
  \<open>stored_initialised\<close>; and a failure that the callback of the authentication or of a
  setup command reports is propagated: lemma \<open>reported_failure_propagates\<close>.)
\<close>

theorem connect_failure_never_propagated:
  assumes "On_connect 0 \<notin> set evs"
  shows "requests (run (new_session auth steps) (Call_request # On_error 0 error # evs)) ! 0 =
           Connecting 0 \<and>
         phase (clients (run (new_session auth steps) (Call_request # On_error 0 error # evs)) ! 0) =
           Await_connect \<and>
         ended (clients (run (new_session auth steps) (Call_request # On_error 0 error # evs)) ! 0)"
proof -
  define s where "s = step (step (new_session auth steps) Call_request) (On_error 0 error)"
  have s: "s = \<lparr>authenticate = auth, setup_steps = steps, s_client = None,
      clients = [new_client\<lparr>ended := True\<rparr>], requests = [Connecting 0]\<rparr>"
    by (simp add: s_def new_session_def request_def connect_def on_error_def update_client_def)
  have "0 < length (clients (run s evs)) \<and> phase (clients (run s evs) ! 0) = Await_connect \<and>
         ended (clients (run s evs) ! 0) \<and>
         0 < length (requests (run s evs)) \<and> requests (run s evs) ! 0 = Connecting 0"
    using assms by (intro stuck_run) (simp_all add: s new_client_def)
  then show ?thesis
    by (simp add: run_Cons s_def)
qed

theorem connect_failure_never_propagated_witness:
  "On_connect 0 \<notin> set [On_close 0, On_reply 0 None, Call_end] \<and>
   requests (run (new_session None 2)
      [Call_request, On_error 0 (Error ''ECONNREFUSED''), On_close 0, On_reply 0 None, Call_end]) ! 0 =
     Connecting 0 \<and>
   phase (clients (run (new_session None 2)
      [Call_request, On_error 0 (Error ''ECONNREFUSED''), On_close 0, On_reply 0 None, Call_end]) ! 0) =
     Await_connect \<and>
   ended (clients (run (new_session None 2)
      [Call_request, On_error 0 (Error ''ECONNREFUSED''), On_close 0, On_reply 0 None, Call_end]) ! 0)"
proof -
  have h: "On_connect 0 \<notin> set [On_close 0, On_reply 0 None, Call_end]" by simp
  show ?thesis
    using h connect_failure_never_propagated [OF h, of None 2 "Error ''ECONNREFUSED''"]
    by blast
qed

end
